theory Spec2Isabelle
  imports Complex_Main
begin

section \<open>The Searchbar widget (src/components/searchbar/searchbar.ts)\<close>

text \<open>
  The methods of class \<open>Searchbar\<close> are embedded as functions on an explicit state. The
  host (the framework, the DOM and the timer queue of the event loop) is the environment:
  it calls the handlers one at a time and fires a pending timeout when its time has come.
  Time is in milliseconds and the timer queue is ideal: a timeout fires exactly when it
  is due, and timeouts due at the time of an event fire before the event is handled.
  Every notification and every call that leaves the widget is appended to a log together
  with the time at which it happens.

  Not modelled: the setter \<open>_searchbarInput\<close>, which copies the \<open>autocomplete\<close>,
  \<open>autocorrect\<close>, \<open>spellcheck\<close> and \<open>type\<close> attributes to the input element when the view
  is created, and the text of the style values that \<open>addElementLeft\<close> builds (the log
  keeps the two offsets as numbers). The focus event that \<open>inputEle.focus()\<close> may cause is
  an event of the host like any other.
\<close>

subsection \<open>JavaScript values\<close>

text \<open>
  Numbers are the integer-valued numbers, \<open>NaN\<close> and the two infinities (\<open>-0\<close> is
  \<open>Fin 0\<close>: both are falsy and print as \<open>0\<close>). Strings are lists of code units below 256.
\<close>

datatype jsnum = NaN | PosInfinity | NegInfinity | Fin int

datatype jsval = JUndefined | JNull | JBool bool | JNum jsnum | JStr string

datatype error = TypeError

text \<open>ToBoolean: what \<open>&&\<close>, \<open>if\<close> and a class binding read of a value.\<close>

fun truthy :: "jsval \<Rightarrow> bool" where
  "truthy JUndefined = False"
| "truthy JNull = False"
| "truthy (JBool b) = b"
| "truthy (JNum NaN) = False"
| "truthy (JNum (Fin i)) = (i \<noteq> 0)"
| "truthy (JNum _) = True"
| "truthy (JStr s) = (s \<noteq> [])"

text \<open>
  Decimal digits of a natural number, as \<open>Number.prototype.toString\<close> prints them (from
  \<open>10^21\<close> on it prints an exponent instead; the widget only asks whether the string is
  blank, and it is blank in neither form).
\<close>

fun showNat :: "nat \<Rightarrow> string" where
  "showNat n = (if n < 10 then [char_of (48 + n)]
                else showNat (n div 10) @ [char_of (48 + n mod 10)])"

declare showNat.simps [simp del]

fun numToString :: "jsnum \<Rightarrow> string" where
  "numToString NaN = ''NaN''"
| "numToString PosInfinity = ''Infinity''"
| "numToString NegInfinity = ''-Infinity''"
| "numToString (Fin i) = (if i < 0 then CHR ''-'' # showNat (nat (- i)) else showNat (nat i))"

text \<open>\<open>v.toString()\<close>: a property access on \<open>undefined\<close> or \<open>null\<close> throws.\<close>

fun toString :: "jsval \<Rightarrow> error + string" where
  "toString JUndefined = Inl TypeError"
| "toString JNull = Inl TypeError"
| "toString (JBool b) = Inr (if b then ''true'' else ''false'')"
| "toString (JNum n) = Inr (numToString n)"
| "toString (JStr s) = Inr s"

text \<open>
  \<open>String.prototype.trim\<close> strips white space and line terminators from both ends:
  TAB, LF, VT, FF, CR, SPACE and NBSP among the code units below 256.
\<close>

definition isWhite :: "char \<Rightarrow> bool" where
  "isWhite c = ((of_char c :: nat) \<in> {9, 10, 11, 12, 13, 32, 160})"

definition trim :: "string \<Rightarrow> string" where
  "trim s = rev (dropWhile isWhite (rev (dropWhile isWhite s)))"

text \<open>
  Modelled from the spec: \<open>isPresent\<close> of \<open>util/util\<close>, which is imported by the widget
  and is not among the sources. The spec calls a value present when it is not absent;
  the absent values of the language are \<open>undefined\<close> and \<open>null\<close>.
\<close>

fun isPresent :: "jsval \<Rightarrow> bool" where
  "isPresent JUndefined = False"
| "isPresent JNull = False"
| "isPresent _ = True"

text \<open>
  The expression \<open>this._value && this._value.toString().trim() !== ''\<close> of \<open>ngOnInit\<close>
  and \<open>inputBlurred\<close>. \<open>a && b\<close> is \<open>a\<close> itself when \<open>a\<close> is falsy, and \<open>b\<close> otherwise.
\<close>

definition leftAlignExpr :: "jsval \<Rightarrow> error + jsval" where
  "leftAlignExpr v =
     (if truthy v
      then (case toString v of
              Inl e \<Rightarrow> Inl e
            | Inr s \<Rightarrow> Inr (JBool (trim s \<noteq> [])))
      else Inr v)"

text \<open>
  The number that the property \<open>debounce\<close> holds: a finite number (a rational here),
  \<open>NaN\<close> or an infinity.
\<close>

datatype number = NumNaN | NumPosInfinity | NumNegInfinity | NumFinite rat

text \<open>
  \<open>Math.round\<close>: the nearest integer, a tie going up; \<open>NaN\<close> and the infinities are
  returned as they are.
\<close>

fun Math_round :: "number \<Rightarrow> number" where
  "Math_round (NumFinite x) = NumFinite (of_int \<lfloor>x + 1 / 2\<rfloor>)"
| "Math_round n = n"

text \<open>
  The conversion of a number to the 32-bit signed integer that the host takes as the
  delay of a timeout: \<open>NaN\<close> and the infinities become 0, a finite number is truncated
  towards 0 and wraps around modulo \<open>2^32\<close> into the range from \<open>-2^31\<close> to \<open>2^31 - 1\<close>.
\<close>

fun ToInt32 :: "number \<Rightarrow> int" where
  "ToInt32 (NumFinite x) =
     (let n = (if 0 \<le> x then \<lfloor>x\<rfloor> else \<lceil>x\<rceil>)
      in (n + 2 ^ 31) mod 2 ^ 32 - 2 ^ 31)"
| "ToInt32 n = 0"

subsection \<open>The state\<close>

record uievent =
  ev_id :: nat
  target_value :: jsval

datatype callback = Noop | Fn nat

datatype effect =
    IonInput uievent
  | IonBlur uievent
  | IonFocus uievent
  | IonCancel uievent
  | IonClear uievent
  | OnChange callback jsval
  | InputEleFocus
  | InputRemoveStyle
  | IconRemoveStyle
  | InputPaddingLeft rat
  | IconMarginLeft rat

text \<open>The fields of class \<open>Searchbar\<close> that its methods read or write.\<close>

record searchbar =
  p_value :: jsval
  p_tmr :: "nat option"
  p_shouldBlur :: bool
  mode :: "string option"
  hideCancelButton :: jsval
  debounce :: number
  isFocused :: jsval
  shouldLeftAlign :: jsval
  onChange :: callback
  onTouched :: callback

text \<open>
  A pending timeout of \<open>inputChanged\<close>: its handle, the time at which it is due, and the
  \<open>value\<close> and \<open>ev\<close> its closure has captured.
\<close>

record timer =
  tid :: nat
  due :: rat
  t_value :: jsval
  t_ev :: uievent

text \<open>
  The widget with its environment: the pending timeouts the widget has set, the next
  free timer handle, the clock, the log, whether the host has destroyed the widget, and
  two facts the widget asks its collaborators: the mode of the configuration and the
  measured width of the placeholder text.
\<close>

record world =
  widget :: searchbar
  timers :: "timer list"
  nextId :: nat
  now :: rat
  log :: "(rat \<times> effect) list"
  destroyed :: bool
  config_mode :: string
  textWidth :: int

definition emit :: "effect \<Rightarrow> world \<Rightarrow> world" where
  "emit e w = w\<lparr>log := log w @ [(now w, e)]\<rparr>"

subsection \<open>Timers of the host\<close>

text \<open>\<open>clearTimeout(h)\<close> removes the timeout with handle \<open>h\<close>; any other argument is ignored.\<close>

definition clearTimeout :: "nat option \<Rightarrow> world \<Rightarrow> world" where
  "clearTimeout h w =
     (case h of
        None \<Rightarrow> w
      | Some i \<Rightarrow> w\<lparr>timers := filter (\<lambda>tm. tid tm \<noteq> i) (timers w)\<rparr>)"

text \<open>
  \<open>setTimeout(cb, d)\<close> with the captured \<open>value\<close> and \<open>ev\<close> of the callback: the host
  converts the delay to a 32-bit signed integer, and a negative delay counts as 0. It
  returns the new handle.
\<close>

definition setTimeout :: "jsval \<Rightarrow> uievent \<Rightarrow> number \<Rightarrow> world \<Rightarrow> nat \<times> world" where
  "setTimeout v ev d w =
     (nextId w,
      w\<lparr>timers := timers w @ [\<lparr>tid = nextId w, due = now w + of_int (max 0 (ToInt32 d)),
                                t_value = v, t_ev = ev\<rparr>],
        nextId := Suc (nextId w)\<rparr>)"

subsection \<open>The methods of the widget\<close>

definition ngOnInit :: "world \<Rightarrow> error + world" where
  "ngOnInit w =
     (let s1 = (widget w)\<lparr>mode := Some (config_mode w)\<rparr>;
          s2 = (case hideCancelButton s1 of
                  JStr h \<Rightarrow> s1\<lparr>hideCancelButton := JBool (h = [] \<or> h = ''true'')\<rparr>
                | _ \<Rightarrow> s1)
      in case leftAlignExpr (p_value s2) of
           Inl e \<Rightarrow> Inl e
         | Inr b \<Rightarrow> Inr (w\<lparr>widget := s2\<lparr>shouldLeftAlign := b\<rparr>\<rparr>))"

definition addElementLeft :: "world \<Rightarrow> world" where
  "addElementLeft w =
     (let textWidth = of_int (textWidth w) :: rat
      in emit (IconMarginLeft (textWidth / 2 + 30)) (emit (InputPaddingLeft (textWidth / 2)) w))"

definition setElementLeft :: "world \<Rightarrow> world" where
  "setElementLeft w =
     (if mode (widget w) \<noteq> Some ''ios'' then w
      else if truthy (shouldLeftAlign (widget w))
           then emit IconRemoveStyle (emit InputRemoveStyle w)
           else addElementLeft w)"

definition ngAfterViewInit :: "world \<Rightarrow> world" where
  "ngAfterViewInit w = setElementLeft w"

definition inputChanged :: "uievent \<Rightarrow> world \<Rightarrow> world" where
  "inputChanged ev w =
     (let v = target_value ev;
          w1 = clearTimeout (p_tmr (widget w)) w;
          (h, w2) = setTimeout v ev (Math_round (debounce (widget w1))) w1
      in w2\<lparr>widget := (widget w2)\<lparr>p_tmr := Some h\<rparr>\<rparr>)"

text \<open>The callback that \<open>inputChanged\<close> hands to \<open>setTimeout\<close>.\<close>

definition commit :: "jsval \<Rightarrow> uievent \<Rightarrow> world \<Rightarrow> world" where
  "commit v ev w =
     (let w1 = w\<lparr>widget := (widget w)\<lparr>p_value := v\<rparr>\<rparr>;
          w2 = emit (OnChange (onChange (widget w1)) (p_value (widget w1))) w1
      in emit (IonInput ev) w2)"

definition inputFocused :: "uievent \<Rightarrow> world \<Rightarrow> world" where
  "inputFocused ev w =
     (let w1 = emit (IonFocus ev) w;
          w2 = w1\<lparr>widget := (widget w1)\<lparr>isFocused := JBool True\<rparr>\<rparr>;
          w3 = w2\<lparr>widget := (widget w2)\<lparr>shouldLeftAlign := JBool True\<rparr>\<rparr>
      in setElementLeft w3)"

definition inputBlurred :: "uievent \<Rightarrow> world \<Rightarrow> error + world" where
  "inputBlurred ev w =
     (if p_shouldBlur (widget w) = False
      then (let w1 = emit InputEleFocus w
            in Inr (w1\<lparr>widget := (widget w1)\<lparr>p_shouldBlur := True\<rparr>\<rparr>))
      else (let w1 = emit (IonBlur ev) w;
                w2 = w1\<lparr>widget := (widget w1)\<lparr>isFocused := JBool False\<rparr>\<rparr>
            in case leftAlignExpr (p_value (widget w2)) of
                 Inl e \<Rightarrow> Inl e
               | Inr b \<Rightarrow>
                   Inr (setElementLeft (w2\<lparr>widget := (widget w2)\<lparr>shouldLeftAlign := b\<rparr>\<rparr>))))"

definition clearInput :: "uievent \<Rightarrow> world \<Rightarrow> world" where
  "clearInput ev w =
     (let w1 = emit (IonClear ev) w;
          w2 = (if isPresent (p_value (widget w1)) \<and> p_value (widget w1) \<noteq> JStr []
                then (let w3 = w1\<lparr>widget := (widget w1)\<lparr>p_value := JStr []\<rparr>\<rparr>;
                          w4 = emit (OnChange (onChange (widget w3)) (p_value (widget w3))) w3
                      in emit (IonInput ev) w4)
                else w1)
      in w2\<lparr>widget := (widget w2)\<lparr>p_shouldBlur := False\<rparr>\<rparr>)"

definition cancelSearchbar :: "uievent \<Rightarrow> world \<Rightarrow> world" where
  "cancelSearchbar ev w =
     (let w1 = emit (IonCancel ev) w;
          w2 = clearInput ev w1
      in w2\<lparr>widget := (widget w2)\<lparr>p_shouldBlur := True\<rparr>\<rparr>)"

definition writeValue :: "jsval \<Rightarrow> world \<Rightarrow> world" where
  "writeValue val w = w\<lparr>widget := (widget w)\<lparr>p_value := val\<rparr>\<rparr>"

text \<open>
  The setter of the \<open>value\<close> property. The template also binds the inner input element
  to \<open>_value\<close> in both directions; such an assignment by the host has the same effect.
\<close>

definition set_value :: "jsval \<Rightarrow> world \<Rightarrow> world" where
  "set_value val w = w\<lparr>widget := (widget w)\<lparr>p_value := val\<rparr>\<rparr>"

definition registerOnChange :: "callback \<Rightarrow> world \<Rightarrow> world" where
  "registerOnChange fn w = w\<lparr>widget := (widget w)\<lparr>onChange := fn\<rparr>\<rparr>"

definition registerOnTouched :: "callback \<Rightarrow> world \<Rightarrow> world" where
  "registerOnTouched fn w = w\<lparr>widget := (widget w)\<lparr>onTouched := fn\<rparr>\<rparr>"

subsection \<open>The host: construction, the timer queue, destruction\<close>

text \<open>
  The field initialisers and the constructor. \<open>isFocused\<close>, \<open>shouldLeftAlign\<close>, \<open>mode\<close>
  and \<open>_tmr\<close> have no initialiser and start as \<open>undefined\<close>.
\<close>

definition construct :: "string \<Rightarrow> int \<Rightarrow> world" where
  "construct cm tw =
     \<lparr>widget = \<lparr>p_value = JStr [], p_tmr = None, p_shouldBlur = True, mode = None,
                 hideCancelButton = JBool False, debounce = NumFinite 250,
                 isFocused = JUndefined,
                 shouldLeftAlign = JUndefined, onChange = Noop, onTouched = Noop\<rparr>,
      timers = [], nextId = 1, now = 0, log = [], destroyed = False,
      config_mode = cm, textWidth = tw\<rparr>"

text \<open>
  Mounting: the host sets the input properties \<open>value\<close>, \<open>hideCancelButton\<close> and
  \<open>debounce\<close>, then runs \<open>ngOnInit\<close> and, once the view exists, \<open>ngAfterViewInit\<close>.
\<close>

definition mount :: "string \<Rightarrow> int \<Rightarrow> jsval \<Rightarrow> jsval \<Rightarrow> number \<Rightarrow> error + world" where
  "mount cm tw v h d =
     (let w0 = construct cm tw;
          w1 = w0\<lparr>widget := (widget w0)\<lparr>p_value := v, hideCancelButton := h, debounce := d\<rparr>\<rparr>
      in case ngOnInit w1 of
           Inl e \<Rightarrow> Inl e
         | Inr w2 \<Rightarrow> Inr (ngAfterViewInit w2))"

text \<open>
  A timeout fires: the clock is at its due time, it leaves the queue and its callback
  runs.
\<close>

definition fireTimer :: "timer \<Rightarrow> world \<Rightarrow> world" where
  "fireTimer tm w =
     commit (t_value tm) (t_ev tm)
       (w\<lparr>timers := filter (\<lambda>x. tid x \<noteq> tid tm) (timers w), now := max (now w) (due tm)\<rparr>)"

text \<open>The pending timeout that is due first; among equal due times the older handle.\<close>

fun earliest :: "timer list \<Rightarrow> timer option" where
  "earliest [] = None"
| "earliest (x # xs) =
     (case earliest xs of
        None \<Rightarrow> Some x
      | Some y \<Rightarrow> if due x < due y \<or> (due x = due y \<and> tid x \<le> tid y) then Some x else Some y)"

definition nextDue :: "rat \<Rightarrow> timer list \<Rightarrow> timer option" where
  "nextDue t tms =
     (case earliest tms of
        None \<Rightarrow> None
      | Some tm \<Rightarrow> if due tm \<le> t then Some tm else None)"

lemma earliest_mem: "earliest tms = Some tm \<Longrightarrow> tm \<in> set tms"
  by (induction tms arbitrary: tm) (auto split: option.splits if_splits)

lemma nextDue_mem: "nextDue t tms = Some tm \<Longrightarrow> tm \<in> set tms"
  by (auto simp: nextDue_def earliest_mem split: option.splits if_splits)

lemma timers_emit [simp]: "timers (emit e w) = timers w"
  by (simp add: emit_def)

lemma timers_commit [simp]: "timers (commit v ev w) = timers w"
  by (simp add: commit_def Let_def)

lemma timers_fireTimer: "timers (fireTimer tm w) = filter (\<lambda>x. tid x \<noteq> tid tm) (timers w)"
  by (simp add: fireTimer_def)

text \<open>
  The clock moves to time \<open>t\<close>: every timeout due by then fires, in the order of the
  queue. The callbacks of this widget set no timeout, so the queue shrinks.
\<close>

function advance :: "rat \<Rightarrow> world \<Rightarrow> world" where
  "advance t w =
     (case nextDue t (timers w) of
        None \<Rightarrow> w\<lparr>now := max (now w) t\<rparr>
      | Some tm \<Rightarrow> advance t (fireTimer tm w))"
  by pat_completeness auto
termination
proof (relation "measure (\<lambda>(t, w). length (timers w))")
  show "wf (measure (\<lambda>(t, w). length (timers w)))" by simp
next
  fix t :: rat and w :: world and tm :: timer
  assume "nextDue t (timers w) = Some tm"
  then have "tm \<in> set (timers w)" by (rule nextDue_mem)
  then have "length (filter (\<lambda>x. tid x \<noteq> tid tm) (timers w)) < length (timers w)"
    by (intro length_filter_less[of tm]) auto
  then show "((t, fireTimer tm w), (t, w)) \<in> measure (\<lambda>(t, w). length (timers w))"
    by (simp add: timers_fireTimer)
qed

declare advance.simps [simp del]

text \<open>
  The host destroys the widget. The framework would call a method \<open>ngOnDestroy\<close>; class
  \<open>Searchbar\<close> declares none, so no code of the widget runs.
\<close>

definition destroy :: "world \<Rightarrow> world" where
  "destroy w = w\<lparr>destroyed := True\<rparr>"

subsection \<open>Runs of the widget\<close>

datatype event =
    Advance rat
  | InputChanged uievent
  | InputFocused uievent
  | InputBlurred uievent
  | ClearInput uievent
  | CancelSearchbar uievent
  | WriteValue jsval
  | SetValue jsval
  | SetDebounce number
  | RegisterOnChange callback
  | RegisterOnTouched callback
  | Destroy

fun step :: "event \<Rightarrow> world \<Rightarrow> error + world" where
  "step (Advance t) w = Inr (advance t w)"
| "step (InputChanged ev) w = Inr (inputChanged ev w)"
| "step (InputFocused ev) w = Inr (inputFocused ev w)"
| "step (InputBlurred ev) w = inputBlurred ev w"
| "step (ClearInput ev) w = Inr (clearInput ev w)"
| "step (CancelSearchbar ev) w = Inr (cancelSearchbar ev w)"
| "step (WriteValue v) w = Inr (writeValue v w)"
| "step (SetValue v) w = Inr (set_value v w)"
| "step (SetDebounce d) w = Inr (w\<lparr>widget := (widget w)\<lparr>debounce := d\<rparr>\<rparr>)"
| "step (RegisterOnChange fn) w = Inr (registerOnChange fn w)"
| "step (RegisterOnTouched fn) w = Inr (registerOnTouched fn w)"
| "step Destroy w = Inr (destroy w)"

fun run :: "event list \<Rightarrow> world \<Rightarrow> error + world" where
  "run [] w = Inr w"
| "run (e # es) w = (case step e w of Inl x \<Rightarrow> Inl x | Inr w' \<Rightarrow> run es w')"

text \<open>
  A mounted widget after the events \<open>evs\<close>: the reachable states are the results
  \<open>Inr w\<close> of \<open>mounted\<close>.
\<close>

definition mounted ::
  "string \<Rightarrow> int \<Rightarrow> jsval \<Rightarrow> jsval \<Rightarrow> number \<Rightarrow> event list \<Rightarrow> error + world" where
  "mounted cm tw v h d evs =
     (case mount cm tw v h d of Inl e \<Rightarrow> Inl e | Inr w \<Rightarrow> run evs w)"

text \<open>The delay \<open>inputChanged\<close> asks of \<open>setTimeout\<close>, as the host applies it.\<close>

definition delay :: "world \<Rightarrow> rat" where
  "delay w = of_int (max 0 (ToInt32 (Math_round (debounce (widget w)))))"

text \<open>The trimmed string form of a value is not empty (an absent value has no string form).\<close>

definition nonBlank :: "jsval \<Rightarrow> bool" where
  "nonBlank v = (case toString v of Inl e \<Rightarrow> False | Inr s \<Rightarrow> trim s \<noteq> [])"

text \<open>Every pending timeout is the one whose handle \<open>_tmr\<close> holds, and there is at most one.\<close>

definition timer_inv :: "world \<Rightarrow> bool" where
  "timer_inv w =
     (length (timers w) \<le> 1 \<and> (\<forall>tm \<in> set (timers w). p_tmr (widget w) = Some (tid tm)))"

text \<open>
  A burst of raw input events, each with the time at which the host delivers it, and
  what it means for the events after time \<open>prev\<close> to be less than \<open>D\<close> apart.
\<close>

fun burst :: "(rat \<times> uievent) list \<Rightarrow> event list" where
  "burst [] = []"
| "burst ((t, ev) # xs) = Advance t # InputChanged ev # burst xs"

fun spaced :: "rat \<Rightarrow> rat \<Rightarrow> (rat \<times> uievent) list \<Rightarrow> bool" where
  "spaced D prev [] = True"
| "spaced D prev ((t, ev) # xs) = (prev \<le> t \<and> t - prev < D \<and> spaced D t xs)"

text \<open>
  The events whose handler assigns \<open>shouldLeftAlign\<close> in a given state: a focus, and a
  blur that is not suppressed.
\<close>

fun assigns_alignment :: "event \<Rightarrow> world \<Rightarrow> bool" where
  "assigns_alignment (InputFocused ev) w = True"
| "assigns_alignment (InputBlurred ev) w = p_shouldBlur (widget w)"
| "assigns_alignment e w = False"

text \<open>
  \<open>shouldLeftAlign\<close> agrees with the focus and the value: it is truthy exactly when the
  widget is focused or the value is truthy with a trimmed string form that is not empty.
\<close>

definition aligned_by_value :: "world \<Rightarrow> bool" where
  "aligned_by_value w =
     (truthy (shouldLeftAlign (widget w)) =
        (isFocused (widget w) = JBool True
         \<or> (truthy (p_value (widget w)) \<and> nonBlank (p_value (widget w)))))"

text \<open>A focused widget is left-aligned.\<close>

definition focus_inv :: "world \<Rightarrow> bool" where
  "focus_inv w = (isFocused (widget w) = JBool True \<longrightarrow> shouldLeftAlign (widget w) = JBool True)"

section \<open>Properties\<close>

subsection \<open>Values\<close>

lemma trim_eq_Nil: "trim s = [] \<longleftrightarrow> (\<forall>c \<in> set s. isWhite c)"
proof
  assume "trim s = []"
  then have a: "\<forall>c \<in> set (dropWhile isWhite s). isWhite c"
    by (simp add: trim_def dropWhile_eq_Nil_conv)
  have "dropWhile isWhite s = []"
  proof (rule ccontr)
    assume n: "dropWhile isWhite s \<noteq> []"
    then have "\<not> isWhite (hd (dropWhile isWhite s))" by (rule hd_dropWhile)
    moreover have "hd (dropWhile isWhite s) \<in> set (dropWhile isWhite s)" using n by simp
    ultimately show False using a by blast
  qed
  then show "\<forall>c \<in> set s. isWhite c" by (simp add: dropWhile_eq_Nil_conv)
next
  assume "\<forall>c \<in> set s. isWhite c"
  then have d: "dropWhile isWhite s = []" by (simp add: dropWhile_eq_Nil_conv)
  show "trim s = []" unfolding trim_def d by simp
qed

lemma digit_not_white: "d < 10 \<Longrightarrow> \<not> isWhite (char_of (48 + d :: nat))"
  by (simp add: isWhite_def)

lemma showNat_last: "showNat n \<noteq> [] \<and> \<not> isWhite (last (showNat n))"
  by (subst (1 2) showNat.simps) (simp add: digit_not_white)

text \<open>The string form of a number is never blank.\<close>

lemma nonBlank_num: "nonBlank (JNum n)"
proof (cases n)
  case (Fin i)
  have "last (showNat k) \<in> set (showNat k)" for k using showNat_last by simp
  then have "\<exists>c \<in> set (showNat k). \<not> isWhite c" for k using showNat_last by blast
  then show ?thesis using Fin by (auto simp: nonBlank_def trim_eq_Nil)
qed (simp_all add: nonBlank_def trim_eq_Nil isWhite_def)

text \<open>The guard \<open>this._value &&\<close> keeps \<open>toString\<close> from ever throwing.\<close>

lemma leftAlignExpr_total: "\<exists>b. leftAlignExpr v = Inr b"
  by (cases v) (auto simp: leftAlignExpr_def)

lemma leftAlignExpr_truthy: "leftAlignExpr v = Inr b \<Longrightarrow> truthy b = (truthy v \<and> nonBlank v)"
  by (cases v) (auto simp: leftAlignExpr_def nonBlank_def split: if_splits)

subsection \<open>The timer queue\<close>

lemma advance_no_due: "nextDue t (timers w) = None \<Longrightarrow> advance t w = w\<lparr>now := max (now w) t\<rparr>"
  by (subst advance.simps) simp

lemma advance_due: "nextDue t (timers w) = Some tm \<Longrightarrow> advance t w = advance t (fireTimer tm w)"
  by (subst advance.simps) simp

lemma advance_empty: "timers w = [] \<Longrightarrow> advance t w = w\<lparr>now := max (now w) t\<rparr>"
  by (rule advance_no_due) (simp add: nextDue_def)

lemma advance_single_later:
  "timers w = [tm] \<Longrightarrow> t < due tm \<Longrightarrow> advance t w = w\<lparr>now := max (now w) t\<rparr>"
  by (rule advance_no_due) (simp add: nextDue_def)

lemma advance_single_due:
  assumes "timers w = [tm]" and "due tm \<le> t"
  shows "advance t w = (fireTimer tm w)\<lparr>now := max (now (fireTimer tm w)) t\<rparr>"
proof -
  have "nextDue t (timers w) = Some tm" using assms by (simp add: nextDue_def)
  then have "advance t w = advance t (fireTimer tm w)" by (rule advance_due)
  moreover have "timers (fireTimer tm w) = []" using assms by (simp add: timers_fireTimer)
  ultimately show ?thesis by (simp add: advance_empty)
qed

text \<open>
  Moving the clock changes no field of the widget but \<open>_value\<close>, and sets no timeout.
\<close>

lemma advance_frame:
  "widget (advance t w) = (widget w)\<lparr>p_value := p_value (widget (advance t w))\<rparr>
   \<and> set (timers (advance t w)) \<subseteq> set (timers w)
   \<and> length (timers (advance t w)) \<le> length (timers w)
   \<and> destroyed (advance t w) = destroyed w"
proof (induction t w rule: advance.induct)
  case (1 t w)
  show ?case
  proof (cases "nextDue t (timers w)")
    case None
    then show ?thesis by (simp add: advance_no_due)
  next
    case (Some tm)
    have f: "widget (fireTimer tm w) = (widget w)\<lparr>p_value := t_value tm\<rparr>"
      "set (timers (fireTimer tm w)) \<subseteq> set (timers w)"
      "length (timers (fireTimer tm w)) \<le> length (timers w)"
      "destroyed (fireTimer tm w) = destroyed w"
      by (auto simp add: fireTimer_def commit_def emit_def Let_def)
    from "1.IH"[OF Some] have ih:
      "widget (advance t (fireTimer tm w)) =
         (widget (fireTimer tm w))\<lparr>p_value := p_value (widget (advance t (fireTimer tm w)))\<rparr>"
      "set (timers (advance t (fireTimer tm w))) \<subseteq> set (timers (fireTimer tm w))"
      "length (timers (advance t (fireTimer tm w))) \<le> length (timers (fireTimer tm w))"
      "destroyed (advance t (fireTimer tm w)) = destroyed (fireTimer tm w)"
      by simp_all
    have "widget (advance t (fireTimer tm w)) =
          (widget w)\<lparr>p_value := p_value (widget (advance t (fireTimer tm w)))\<rparr>"
      by (subst ih(1)) (simp add: f(1))
    then show ?thesis using ih(2,3,4) f(2,3,4) by (simp add: advance_due[OF Some])
  qed
qed

lemma advance_timer_inv: "timer_inv w \<Longrightarrow> timer_inv (advance t w)"
proof -
  assume a: "timer_inv w"
  have w: "p_tmr (widget (advance t w)) = p_tmr (widget w)"
    by (subst conjunct1[OF advance_frame]) simp
  show ?thesis using a advance_frame[of t w] unfolding timer_inv_def w by auto
qed

text \<open>
  When \<open>_tmr\<close> holds the handle of every pending timeout, \<open>inputChanged\<close> leaves exactly
  the timeout it sets.
\<close>

lemma inputChanged_inv:
  assumes "timer_inv w"
  shows "inputChanged ev w =
           w\<lparr>timers := [\<lparr>tid = nextId w, due = now w + delay w,
                          t_value = target_value ev, t_ev = ev\<rparr>],
             nextId := Suc (nextId w),
             widget := (widget w)\<lparr>p_tmr := Some (nextId w)\<rparr>\<rparr>"
proof -
  have "filter (\<lambda>tm. tid tm \<noteq> i) (timers w) = []" if "p_tmr (widget w) = Some i" for i
    using assms that by (auto simp: timer_inv_def filter_empty_conv)
  moreover have "timers w = []" if "p_tmr (widget w) = None"
    using assms that by (cases "timers w") (auto simp: timer_inv_def)
  ultimately show ?thesis
    by (cases "p_tmr (widget w)")
       (simp_all add: inputChanged_def clearTimeout_def setTimeout_def delay_def Let_def)
qed

lemma step_timer_inv: "timer_inv w \<Longrightarrow> step e w = Inr w' \<Longrightarrow> timer_inv w'"
proof (cases e)
  case (Advance t)
  assume "timer_inv w" "step e w = Inr w'"
  then show ?thesis using Advance advance_timer_inv by auto
next
  case (InputChanged ev)
  assume "timer_inv w" "step e w = Inr w'"
  then show ?thesis using InputChanged by (auto simp: inputChanged_inv) (simp add: timer_inv_def)
next
  case (InputBlurred ev)
  assume "timer_inv w" "step e w = Inr w'"
  then show ?thesis using InputBlurred
    by (auto simp: timer_inv_def inputBlurred_def setElementLeft_def addElementLeft_def emit_def
        Let_def split: if_splits sum.splits)
qed (auto simp: timer_inv_def inputFocused_def setElementLeft_def addElementLeft_def emit_def Let_def
      clearInput_def cancelSearchbar_def writeValue_def set_value_def registerOnChange_def
      registerOnTouched_def destroy_def)

subsection \<open>Runs never raise, and keep the timer invariant\<close>

lemma run_append:
  "run (xs @ ys) w = (case run xs w of Inl e \<Rightarrow> Inl e | Inr w' \<Rightarrow> run ys w')"
  by (induction xs arbitrary: w) (auto split: sum.splits)

lemma step_total: "\<exists>w'. step e w = Inr w'"
proof (cases e)
  case (InputBlurred ev)
  obtain b where "leftAlignExpr (p_value (widget w)) = Inr b"
    using leftAlignExpr_total by blast
  then show ?thesis using InputBlurred by (simp add: inputBlurred_def emit_def Let_def)
qed simp_all

lemma run_total: "\<exists>w'. run evs w = Inr w'"
proof (induction evs arbitrary: w)
  case Nil
  show ?case by simp
next
  case (Cons e es)
  obtain w1 where "step e w = Inr w1" using step_total by blast
  then show ?case using Cons[of w1] by simp
qed

lemma run_timer_inv: "timer_inv w \<Longrightarrow> run evs w = Inr w' \<Longrightarrow> timer_inv w'"
proof (induction evs arbitrary: w)
  case Nil
  then show ?case by simp
next
  case (Cons e es)
  then show ?case by (auto split: sum.splits dest: step_timer_inv)
qed

lemma mount_total: "\<exists>w. mount cm tw v h d = Inr w"
proof -
  obtain b where "leftAlignExpr v = Inr b" using leftAlignExpr_total by blast
  then show ?thesis by (cases h) (simp_all add: mount_def ngOnInit_def construct_def Let_def)
qed

lemma mount_timer_inv: "mount cm tw v h d = Inr w \<Longrightarrow> timer_inv w"
  by (cases h)
     (auto simp: mount_def ngOnInit_def construct_def Let_def ngAfterViewInit_def setElementLeft_def
       addElementLeft_def emit_def timer_inv_def split: sum.splits if_splits)

lemma mounted_total: "\<exists>w. mounted cm tw v h d evs = Inr w"
proof -
  obtain w0 where "mount cm tw v h d = Inr w0" using mount_total by blast
  then show ?thesis using run_total[of evs w0] by (simp add: mounted_def)
qed

lemma mounted_timer_inv: "mounted cm tw v h d evs = Inr w \<Longrightarrow> timer_inv w"
  by (auto simp: mounted_def split: sum.splits dest: mount_timer_inv run_timer_inv)

lemma advance_none_due:
  assumes "\<forall>tm \<in> set (timers w). t < due tm"
  shows "advance t w = w\<lparr>now := max (now w) t\<rparr>"
proof (rule advance_no_due)
  show "nextDue t (timers w) = None"
  proof (cases "earliest (timers w)")
    case None
    then show ?thesis by (simp add: nextDue_def)
  next
    case (Some tm)
    then have "tm \<in> set (timers w)" by (rule earliest_mem)
    then have "t < due tm" using assms by blast
    then show ?thesis using Some by (simp add: nextDue_def)
  qed
qed

lemma burst_run:
  assumes "timer_inv w" and "\<forall>tm \<in> set (timers w). t1 < due tm" and "now w \<le> t1"
    and "spaced (delay w) t1 rest"
  shows "\<exists>w'. run (burst ((t1, e1) # rest)) w = Inr w'
           \<and> log w' = log w
           \<and> now w' = fst (last ((t1, e1) # rest))
           \<and> timers w' = [\<lparr>tid = nextId w' - 1, due = now w' + delay w,
                            t_value = target_value (snd (last ((t1, e1) # rest))),
                            t_ev = snd (last ((t1, e1) # rest))\<rparr>]
           \<and> widget w' = (widget w)\<lparr>p_tmr := Some (nextId w' - 1)\<rparr>"
  using assms
proof (induction rest arbitrary: w t1 e1)
  case Nil
  have a: "advance t1 w = w\<lparr>now := t1\<rparr>"
    using Nil.prems(2,3) by (simp add: advance_none_due max_def)
  have i: "timer_inv (w\<lparr>now := t1\<rparr>)" using Nil.prems(1) by (simp add: timer_inv_def)
  show ?case by (simp add: a inputChanged_inv[OF i] delay_def)
next
  case (Cons x xs)
  obtain t2 e2 where x: "x = (t2, e2)" by (cases x)
  have a: "advance t1 w = w\<lparr>now := t1\<rparr>"
    using Cons.prems(2,3) by (simp add: advance_none_due max_def)
  have i: "timer_inv (w\<lparr>now := t1\<rparr>)" using Cons.prems(1) by (simp add: timer_inv_def)
  define w2 where "w2 = inputChanged e1 (w\<lparr>now := t1\<rparr>)"
  have w2: "w2 = w\<lparr>now := t1,
                   timers := [\<lparr>tid = nextId w, due = t1 + delay w,
                                t_value = target_value e1, t_ev = e1\<rparr>],
                   nextId := Suc (nextId w),
                   widget := (widget w)\<lparr>p_tmr := Some (nextId w)\<rparr>\<rparr>"
    unfolding w2_def by (simp add: inputChanged_inv[OF i] delay_def)
  have sp: "t1 \<le> t2" "t2 - t1 < delay w" "spaced (delay w) t2 xs"
    using Cons.prems(4) x by simp_all
  have p1: "timer_inv w2" by (simp add: w2 timer_inv_def)
  have dd: "delay w2 = delay w" by (simp add: w2 delay_def)
  have p2: "\<forall>tm \<in> set (timers w2). t2 < due tm" using sp(2) by (simp add: w2)
  have p3: "now w2 \<le> t2" using sp(1) by (simp add: w2)
  have p4: "spaced (delay w2) t2 xs" using sp(3) by (simp add: dd)
  from Cons.IH[OF p1 p2 p3 p4, of e2] obtain w' where w':
    "run (burst ((t2, e2) # xs)) w2 = Inr w'" "log w' = log w2"
    "now w' = fst (last ((t2, e2) # xs))"
    "timers w' = [\<lparr>tid = nextId w' - 1, due = now w' + delay w2,
                    t_value = target_value (snd (last ((t2, e2) # xs))),
                    t_ev = snd (last ((t2, e2) # xs))\<rparr>]"
    "widget w' = (widget w2)\<lparr>p_tmr := Some (nextId w' - 1)\<rparr>"
    by blast
  have r: "run (burst ((t1, e1) # x # xs)) w = run (burst ((t2, e2) # xs)) w2"
    by (simp add: x a w2_def)
  show ?case
    unfolding r using w' by (simp add: x dd) (simp add: w2)
qed

lemma fireTimer_log:
  "log (fireTimer tm w) =
     log w @ [(max (now w) (due tm), OnChange (onChange (widget w)) (t_value tm)),
              (max (now w) (due tm), IonInput (t_ev tm))]
   \<and> p_value (widget (fireTimer tm w)) = t_value tm
   \<and> destroyed (fireTimer tm w) = destroyed w"
  by (simp add: fireTimer_def commit_def emit_def Let_def)

text \<open>
  Between 0 and \<open>2^31 - 1\<close> the delay the host applies is \<open>Math.round(debounce)\<close> itself.
\<close>

lemma delay_in_range:
  assumes "debounce (widget w) = NumFinite r" and "0 \<le> \<lfloor>r + 1 / 2\<rfloor>"
    and "\<lfloor>r + 1 / 2\<rfloor> < 2 ^ 31"
  shows "delay w = of_int \<lfloor>r + 1 / 2\<rfloor>"
proof -
  define k where "k = \<lfloor>r + 1 / 2\<rfloor>"
  have k: "0 \<le> k" "k < 2 ^ 31" using assms(2,3) by (simp_all add: k_def)
  have "(k + 2 ^ 31) mod 2 ^ 32 = k + 2 ^ 31" using k by simp
  then have "ToInt32 (NumFinite (of_int k)) = k" using k by (simp add: Let_def)
  then show ?thesis using k assms(1) by (simp add: delay_def k_def)
qed

text \<open>A first input event on a widget as the constructor leaves it.\<close>

lemma delay_construct: "delay (construct cm tw) = 250"
proof -
  have "\<lfloor>250 + 1 / 2 :: rat\<rfloor> = 250" by (simp add: floor_eq_iff)
  then show ?thesis using delay_in_range[of "construct cm tw" 250] by (simp add: construct_def)
qed

lemma inputChanged_construct:
  "inputChanged ev (construct cm tw)
     = (construct cm tw)
        \<lparr>timers := [\<lparr>tid = 1, due = 250, t_value = target_value ev, t_ev = ev\<rparr>],
          nextId := 2,
          widget := (widget (construct cm tw))\<lparr>p_tmr := Some 1\<rparr>\<rparr>"
proof -
  have i: "timer_inv (construct cm tw)" by (simp add: timer_inv_def construct_def)
  show ?thesis unfolding inputChanged_inv[OF i] delay_construct by (simp add: construct_def)
qed

subsection \<open>Debounce\<close>

text \<open>
  C2. In every reachable state of the widget at most one debounce timeout is pending,
  and \<open>inputChanged\<close> first cancels it: after its \<open>clearTimeout\<close> no timeout is pending,
  and after the whole call exactly the new one is.
\<close>

theorem at_most_one_pending_timer:
  "\<exists>w. mounted cm tw v h d evs = Inr w
      \<and> length (timers w) \<le> 1
      \<and> timers (clearTimeout (p_tmr (widget w)) w) = []
      \<and> timers (inputChanged ev w) =
          [\<lparr>tid = nextId w, due = now w + delay w, t_value = target_value ev, t_ev = ev\<rparr>]"
proof -
  obtain w where w: "mounted cm tw v h d evs = Inr w" using mounted_total by blast
  then have i: "timer_inv w" by (rule mounted_timer_inv)
  have "timers (clearTimeout (p_tmr (widget w)) w) = []"
  proof (cases "p_tmr (widget w)")
    case None
    then have "timers w = []" using i by (cases "timers w") (auto simp: timer_inv_def)
    then show ?thesis using None by (simp add: clearTimeout_def)
  next
    case (Some k)
    then show ?thesis using i by (auto simp: clearTimeout_def timer_inv_def filter_empty_conv)
  qed
  moreover have "length (timers w) \<le> 1" using i by (simp add: timer_inv_def)
  moreover have "timers (inputChanged ev w) =
          [\<lparr>tid = nextId w, due = now w + delay w, t_value = target_value ev, t_ev = ev\<rparr>]"
    by (simp add: inputChanged_inv[OF i])
  ultimately show ?thesis using w by blast
qed

text \<open>
  C1, as the code has it. The delay of the timeout is \<open>Math.round(debounce)\<close> as the host
  takes it: converted to a 32-bit signed integer, and 0 when that is negative; it is
  \<open>Math.round(debounce)\<close> itself whenever that lies between 0 and \<open>2^31 - 1\<close>. Take a
  widget with no pending timeout and a burst of raw input events in which each event
  comes less than this delay after the one before. Then exactly one commit happens: the
  change callback is called once and one input-changed notification is emitted, both
  with the value and the event of the last event of the burst, at the delay after the
  last event, and nothing is emitted before that time.
\<close>

theorem debounce_burst_single_commit:
  assumes "timers w = []" and "now w \<le> t1" and "spaced (delay w) t1 rest"
  shows "(\<exists>w'. run (burst ((t1, e1) # rest) @ [Advance (fst (last ((t1, e1) # rest)) + delay w)]) w
                = Inr w'
           \<and> log w' = log w @
               [(fst (last ((t1, e1) # rest)) + delay w,
                 OnChange (onChange (widget w)) (target_value (snd (last ((t1, e1) # rest))))),
                (fst (last ((t1, e1) # rest)) + delay w,
                 IonInput (snd (last ((t1, e1) # rest))))]
           \<and> p_value (widget w') = target_value (snd (last ((t1, e1) # rest)))
           \<and> timers w' = [])
       \<and> (\<forall>t. t < fst (last ((t1, e1) # rest)) + delay w \<longrightarrow>
            (\<exists>w'. run (burst ((t1, e1) # rest) @ [Advance t]) w = Inr w' \<and> log w' = log w))
       \<and> (\<forall>r. debounce (widget w) = NumFinite r \<and> 0 \<le> \<lfloor>r + 1 / 2\<rfloor>
              \<and> \<lfloor>r + 1 / 2\<rfloor> < 2 ^ 31 \<longrightarrow>
            delay w = of_int \<lfloor>r + 1 / 2\<rfloor>)"
proof -
  let ?tl = "fst (last ((t1, e1) # rest))" and ?el = "snd (last ((t1, e1) # rest))"
  have i: "timer_inv w" and n: "\<forall>tm \<in> set (timers w). t1 < due tm"
    using assms(1) by (simp_all add: timer_inv_def)
  from burst_run[OF i n assms(2,3), of e1] obtain wb where wb:
    "run (burst ((t1, e1) # rest)) w = Inr wb" "log wb = log w" "now wb = ?tl"
    "timers wb = [\<lparr>tid = nextId wb - 1, due = now wb + delay w,
                    t_value = target_value ?el, t_ev = ?el\<rparr>]"
    "widget wb = (widget w)\<lparr>p_tmr := Some (nextId wb - 1)\<rparr>"
    by blast
  define tm where "tm = \<lparr>tid = nextId wb - 1, due = ?tl + delay w,
                          t_value = target_value ?el, t_ev = ?el\<rparr>"
  have tms: "timers wb = [tm]" using wb(3,4) by (simp add: tm_def)
  have dn: "0 \<le> delay w" by (simp add: delay_def)
  have mx: "max (now wb) (due tm) = ?tl + delay w" using dn wb(3) by (simp add: tm_def max_def)
  have fire: "advance (?tl + delay w) wb
                = (fireTimer tm wb)\<lparr>now := max (now (fireTimer tm wb)) (?tl + delay w)\<rparr>"
    by (rule advance_single_due[OF tms]) (simp add: tm_def)
  have 1: "log (advance (?tl + delay w) wb) = log w @
               [(?tl + delay w, OnChange (onChange (widget w)) (target_value ?el)),
                (?tl + delay w, IonInput ?el)]"
    unfolding fire using fireTimer_log[of tm wb] mx wb(2,5) by (simp add: tm_def)
  have 2: "p_value (widget (advance (?tl + delay w) wb)) = target_value ?el"
    unfolding fire using fireTimer_log[of tm wb] by (simp add: tm_def)
  have 3: "timers (advance (?tl + delay w) wb) = []"
    unfolding fire using tms by (simp add: timers_fireTimer)
  have first: "\<exists>w'. run (burst ((t1, e1) # rest) @ [Advance (?tl + delay w)]) w = Inr w'
           \<and> log w' = log w @
               [(?tl + delay w, OnChange (onChange (widget w)) (target_value ?el)),
                (?tl + delay w, IonInput ?el)]
           \<and> p_value (widget w') = target_value ?el
           \<and> timers w' = []"
  proof -
    have "run (burst ((t1, e1) # rest) @ [Advance (?tl + delay w)]) w
            = Inr (advance (?tl + delay w) wb)"
      by (simp only: run_append wb(1) sum.case run.simps step.simps)
    then show ?thesis using 1 2 3 by blast
  qed
  have second: "\<exists>w'. run (burst ((t1, e1) # rest) @ [Advance t]) w = Inr w' \<and> log w' = log w"
    if "t < ?tl + delay w" for t
  proof -
    have "t < due tm" using that by (simp add: tm_def)
    then have "advance t wb = wb\<lparr>now := max (now wb) t\<rparr>"
      by (rule advance_single_later[OF tms])
    then have "log (advance t wb) = log w" by (simp add: wb(2))
    moreover have "run (burst ((t1, e1) # rest) @ [Advance t]) w = Inr (advance t wb)"
      by (simp only: run_append wb(1) sum.case run.simps step.simps)
    ultimately show ?thesis by blast
  qed
  show ?thesis using first second delay_in_range[of w] by blast
qed

theorem debounce_burst_single_commit_witness:
  "timers (construct ''md'' 40) = [] \<and> now (construct ''md'' 40) \<le> 0
   \<and> spaced (delay (construct ''md'' 40)) 0
        [(100, \<lparr>ev_id = 2, target_value = JStr ''ab''\<rparr>)]
   \<and> debounce (widget (construct ''md'' 40)) = NumFinite 250
   \<and> delay (construct ''md'' 40) = 250
   \<and> (\<exists>w'. run [Advance 0, InputChanged \<lparr>ev_id = 1, target_value = JStr ''a''\<rparr>,
                 Advance 100, InputChanged \<lparr>ev_id = 2, target_value = JStr ''ab''\<rparr>,
                 Advance 350] (construct ''md'' 40) = Inr w'
          \<and> log w' = [(350, OnChange Noop (JStr ''ab'')),
                       (350, IonInput \<lparr>ev_id = 2, target_value = JStr ''ab''\<rparr>)]
          \<and> p_value (widget w') = JStr ''ab''
          \<and> timers w' = [])"
proof -
  have h1: "timers (construct ''md'' 40) = []" by (simp add: construct_def)
  have h2: "now (construct ''md'' 40) \<le> 0" by (simp add: construct_def)
  have b: "debounce (widget (construct ''md'' 40)) = NumFinite 250" by (simp add: construct_def)
  have d: "delay (construct ''md'' 40) = 250" by (rule delay_construct)
  have h3: "spaced (delay (construct ''md'' 40)) 0
        [(100, \<lparr>ev_id = 2, target_value = JStr ''ab''\<rparr>)]"
    by (simp add: d)
  have l: "log (construct ''md'' 40) = []" "onChange (widget (construct ''md'' 40)) = Noop"
    by (simp_all add: construct_def)
  from debounce_burst_single_commit[OF h1 h2 h3, of "\<lparr>ev_id = 1, target_value = JStr ''a''\<rparr>"]
  have "\<exists>w'. run [Advance 0, InputChanged \<lparr>ev_id = 1, target_value = JStr ''a''\<rparr>,
                 Advance 100, InputChanged \<lparr>ev_id = 2, target_value = JStr ''ab''\<rparr>,
                 Advance 350] (construct ''md'' 40) = Inr w'
          \<and> log w' = [(350, OnChange Noop (JStr ''ab'')),
                       (350, IonInput \<lparr>ev_id = 2, target_value = JStr ''ab''\<rparr>)]
          \<and> p_value (widget w') = JStr ''ab''
          \<and> timers w' = []"
    unfolding d l by simp
  then show ?thesis using h1 h2 h3 b d by blast
qed

text \<open>
  C1 as the spec states it, with the events less than \<open>debounce\<close> apart, fails when
  \<open>Math.round\<close> rounds down: with \<open>debounce = 250.4\<close> the timeout is set to 250 ms, and
  two events 250.2 ms apart are committed one by one. It also fails when
  \<open>Math.round(debounce)\<close> does not fit a 32-bit signed integer: with \<open>debounce = 2^31\<close>
  the delay of the timeout is 0, and two events a second apart are each committed at
  once.
\<close>

theorem debounce_burst_counterexample:
  "spaced (2504 / 10) 0 [(2502 / 10, \<lparr>ev_id = 2, target_value = JStr ''ab''\<rparr>)]
   \<and> map_sum id log
       (mounted ''md'' 40 (JStr []) (JBool False) (NumFinite (2504 / 10))
          (burst [(0, \<lparr>ev_id = 1, target_value = JStr ''a''\<rparr>),
                  (2502 / 10, \<lparr>ev_id = 2, target_value = JStr ''ab''\<rparr>)]
           @ [Advance (2502 / 10 + 250)]))
     = Inr [(250, OnChange Noop (JStr ''a'')),
            (250, IonInput \<lparr>ev_id = 1, target_value = JStr ''a''\<rparr>),
            (5002 / 10, OnChange Noop (JStr ''ab'')),
            (5002 / 10, IonInput \<lparr>ev_id = 2, target_value = JStr ''ab''\<rparr>)]
   \<and> spaced 2147483648 0 [(1000, \<lparr>ev_id = 2, target_value = JStr ''ab''\<rparr>)]
   \<and> map_sum id log
       (mounted ''md'' 40 (JStr []) (JBool False) (NumFinite 2147483648)
          (burst [(0, \<lparr>ev_id = 1, target_value = JStr ''a''\<rparr>),
                  (1000, \<lparr>ev_id = 2, target_value = JStr ''ab''\<rparr>)]
           @ [Advance (1000 + 2147483648)]))
     = Inr [(0, OnChange Noop (JStr ''a'')),
            (0, IonInput \<lparr>ev_id = 1, target_value = JStr ''a''\<rparr>),
            (1000, OnChange Noop (JStr ''ab'')),
            (1000, IonInput \<lparr>ev_id = 2, target_value = JStr ''ab''\<rparr>)]"
  by code_simp

subsection \<open>Clear and cancel\<close>

text \<open>
  C3. When the current value is present and not the empty string, \<open>clearInput\<close> emits the
  clear notification, sets the value to the empty string within the call (the clock and
  the timer queue are as before), calls the registered change callback once with the
  empty string, emits one input-changed notification, and raises the suppress-blur flag
  (\<open>_shouldBlur\<close> becomes false).
\<close>

theorem clearInput_nonempty:
  assumes "isPresent (p_value (widget w))" and "p_value (widget w) \<noteq> JStr []"
  shows "log (clearInput ev w) =
           log w @ [(now w, IonClear ev),
                    (now w, OnChange (onChange (widget w)) (JStr [])),
                    (now w, IonInput ev)]
         \<and> p_value (widget (clearInput ev w)) = JStr []
         \<and> p_shouldBlur (widget (clearInput ev w)) = False
         \<and> timers (clearInput ev w) = timers w
         \<and> now (clearInput ev w) = now w"
  using assms by (simp add: clearInput_def emit_def Let_def)

theorem clearInput_nonempty_witness:
  "isPresent (p_value (widget (writeValue (JStr ''hello'') (construct ''md'' 40))))
   \<and> p_value (widget (writeValue (JStr ''hello'') (construct ''md'' 40))) \<noteq> JStr []
   \<and> log (clearInput \<lparr>ev_id = 7, target_value = JUndefined\<rparr>
            (writeValue (JStr ''hello'') (construct ''md'' 40))) =
       [(0, IonClear \<lparr>ev_id = 7, target_value = JUndefined\<rparr>),
        (0, OnChange Noop (JStr [])),
        (0, IonInput \<lparr>ev_id = 7, target_value = JUndefined\<rparr>)]
   \<and> p_value (widget (clearInput \<lparr>ev_id = 7, target_value = JUndefined\<rparr>
            (writeValue (JStr ''hello'') (construct ''md'' 40)))) = JStr []
   \<and> p_shouldBlur (widget (clearInput \<lparr>ev_id = 7, target_value = JUndefined\<rparr>
            (writeValue (JStr ''hello'') (construct ''md'' 40)))) = False"
proof -
  have h1: "isPresent (p_value (widget (writeValue (JStr ''hello'') (construct ''md'' 40))))"
    by (simp add: writeValue_def construct_def)
  have h2: "p_value (widget (writeValue (JStr ''hello'') (construct ''md'' 40))) \<noteq> JStr []"
    by (simp add: writeValue_def construct_def)
  show ?thesis
    using h1 h2 clearInput_nonempty[OF h1 h2, of "\<lparr>ev_id = 7, target_value = JUndefined\<rparr>"]
    by (simp add: writeValue_def construct_def)
qed

text \<open>
  C7. When the current value is absent or the empty string, \<open>clearInput\<close> emits the clear
  notification and nothing else: no input-changed notification, no call of the change
  callback, and the value stays as it is.
\<close>

theorem clearInput_empty:
  assumes "\<not> isPresent (p_value (widget w)) \<or> p_value (widget w) = JStr []"
  shows "log (clearInput ev w) = log w @ [(now w, IonClear ev)]
         \<and> p_value (widget (clearInput ev w)) = p_value (widget w)
         \<and> timers (clearInput ev w) = timers w"
  using assms by (auto simp add: clearInput_def emit_def Let_def)

theorem clearInput_empty_witness:
  "p_value (widget (construct ''md'' 40)) = JStr []
   \<and> log (clearInput \<lparr>ev_id = 7, target_value = JUndefined\<rparr> (construct ''md'' 40)) =
       [(0, IonClear \<lparr>ev_id = 7, target_value = JUndefined\<rparr>)]
   \<and> p_value (widget (clearInput \<lparr>ev_id = 7, target_value = JUndefined\<rparr> (construct ''md'' 40)))
       = JStr []"
proof -
  have h: "\<not> isPresent (p_value (widget (construct ''md'' 40)))
             \<or> p_value (widget (construct ''md'' 40)) = JStr []"
    by (simp add: construct_def)
  show ?thesis
    using h clearInput_empty[OF h, of "\<lparr>ev_id = 7, target_value = JUndefined\<rparr>"]
    by (simp add: construct_def)
qed

text \<open>
  C8. For every state, \<open>cancelSearchbar\<close> emits the cancel notification first, then does
  what \<open>clearInput\<close> does in the same state (the same notifications after the cancel
  notification, the same widget fields, timer queue and clock), and ends with
  \<open>_shouldBlur\<close> true, whatever the value was.
\<close>

theorem cancelSearchbar_clears_and_lowers:
  "log (cancelSearchbar ev w) =
      log w @ (now w, IonCancel ev) # drop (length (log w)) (log (clearInput ev w))
   \<and> widget (cancelSearchbar ev w) = (widget (clearInput ev w))\<lparr>p_shouldBlur := True\<rparr>
   \<and> timers (cancelSearchbar ev w) = timers (clearInput ev w)
   \<and> now (cancelSearchbar ev w) = now (clearInput ev w)
   \<and> p_shouldBlur (widget (cancelSearchbar ev w)) = True"
  by (simp add: cancelSearchbar_def clearInput_def emit_def Let_def)

subsection \<open>Blur\<close>

text \<open>
  C9. When a blur event arrives while the suppress-blur flag is set (\<open>_shouldBlur\<close> is
  false), \<open>inputBlurred\<close> focuses the input element again, clears the flag, emits no blur
  notification, and leaves \<open>isFocused\<close>, \<open>shouldLeftAlign\<close> and the value as they are.
\<close>

theorem inputBlurred_suppressed:
  assumes "p_shouldBlur (widget w) = False"
  shows "\<exists>w'. inputBlurred ev w = Inr w'
     \<and> log w' = log w @ [(now w, InputEleFocus)]
     \<and> p_shouldBlur (widget w') = True
     \<and> isFocused (widget w') = isFocused (widget w)
     \<and> shouldLeftAlign (widget w') = shouldLeftAlign (widget w)
     \<and> p_value (widget w') = p_value (widget w)"
  using assms by (simp add: inputBlurred_def emit_def Let_def)

theorem inputBlurred_suppressed_witness:
  "p_shouldBlur (widget (clearInput \<lparr>ev_id = 7, target_value = JUndefined\<rparr>
       (inputFocused \<lparr>ev_id = 6, target_value = JUndefined\<rparr> (construct ''md'' 40)))) = False
   \<and> (\<exists>w'. inputBlurred \<lparr>ev_id = 8, target_value = JUndefined\<rparr>
              (clearInput \<lparr>ev_id = 7, target_value = JUndefined\<rparr>
                (inputFocused \<lparr>ev_id = 6, target_value = JUndefined\<rparr> (construct ''md'' 40)))
            = Inr w'
          \<and> log w' = [(0, IonFocus \<lparr>ev_id = 6, target_value = JUndefined\<rparr>),
                       (0, IonClear \<lparr>ev_id = 7, target_value = JUndefined\<rparr>),
                       (0, InputEleFocus)]
          \<and> p_shouldBlur (widget w') = True
          \<and> isFocused (widget w') = JBool True
          \<and> shouldLeftAlign (widget w') = JBool True)"
proof -
  have h: "p_shouldBlur (widget (clearInput \<lparr>ev_id = 7, target_value = JUndefined\<rparr>
       (inputFocused \<lparr>ev_id = 6, target_value = JUndefined\<rparr> (construct ''md'' 40)))) = False"
    by (simp add: clearInput_def Let_def)
  show ?thesis
    using h inputBlurred_suppressed[OF h, of "\<lparr>ev_id = 8, target_value = JUndefined\<rparr>"]
    by (simp add: clearInput_def inputFocused_def setElementLeft_def emit_def construct_def Let_def)
       blast
qed

text \<open>
  C6, as the code has it. After a blur event with the suppress-blur flag unset
  (\<open>_shouldBlur\<close> true), a blur notification is emitted, \<open>isFocused\<close> is false, and
  \<open>shouldLeftAlign\<close> is the value of \<open>_value && _value.toString().trim() !== ''\<close>: it is
  truthy exactly when the value is truthy and its trimmed string form is not empty. For
  every value but the numbers \<open>0\<close> and \<open>NaN\<close> (and the boolean \<open>false\<close>) that is: when
  the value is present and its trimmed string form is not empty.
\<close>

theorem inputBlurred_unsuppressed:
  assumes "p_shouldBlur (widget w) = True"
  shows "\<exists>w'. inputBlurred ev w = Inr w'
     \<and> take (Suc (length (log w))) (log w') = log w @ [(now w, IonBlur ev)]
     \<and> isFocused (widget w') = JBool False
     \<and> p_value (widget w') = p_value (widget w)
     \<and> leftAlignExpr (p_value (widget w)) = Inr (shouldLeftAlign (widget w'))
     \<and> truthy (shouldLeftAlign (widget w'))
          = (truthy (p_value (widget w)) \<and> nonBlank (p_value (widget w)))
     \<and> (p_value (widget w) \<noteq> JNum (Fin 0) \<and> p_value (widget w) \<noteq> JNum NaN
          \<and> p_value (widget w) \<noteq> JBool False \<longrightarrow>
        truthy (shouldLeftAlign (widget w'))
          = (isPresent (p_value (widget w)) \<and> nonBlank (p_value (widget w))))"
proof -
  let ?v = "p_value (widget w)"
  obtain b where b: "leftAlignExpr ?v = Inr b" using leftAlignExpr_total by blast
  define w2 where "w2 = (emit (IonBlur ev) w)\<lparr>widget := (widget w)\<lparr>isFocused := JBool False, shouldLeftAlign := b\<rparr>\<rparr>"
  have r: "inputBlurred ev w = Inr (setElementLeft w2)"
    using assms b by (simp add: inputBlurred_def w2_def emit_def Let_def)
  have l2: "log w2 = log w @ [(now w, IonBlur ev)]" by (simp add: w2_def emit_def)
  have s: "widget (setElementLeft w2) = widget w2 \<and> (\<exists>xs. log (setElementLeft w2) = log w2 @ xs)"
    by (simp add: setElementLeft_def addElementLeft_def emit_def Let_def)
  then obtain xs where xs: "log (setElementLeft w2) = log w2 @ xs" by blast
  have 1: "take (Suc (length (log w))) (log (setElementLeft w2)) = log w @ [(now w, IonBlur ev)]"
    by (simp add: xs l2)
  have wd: "widget (setElementLeft w2) = (widget w)\<lparr>isFocused := JBool False, shouldLeftAlign := b\<rparr>"
    using s by (simp add: w2_def)
  have t: "truthy b = (truthy ?v \<and> nonBlank ?v)" using b by (rule leftAlignExpr_truthy)
  have tr: "trim [] = []" by (simp add: trim_def)
  have p: "truthy ?v = isPresent ?v \<or> \<not> nonBlank ?v"
    if "?v \<noteq> JNum (Fin 0)" "?v \<noteq> JNum NaN" "?v \<noteq> JBool False"
  proof (cases ?v)
    case (JStr x)
    then show ?thesis by (cases x) (simp_all add: nonBlank_def tr)
  next
    case (JNum n)
    then show ?thesis using that by (cases n) simp_all
  next
    case (JBool x)
    then show ?thesis using that by simp
  qed simp_all
  have 2: "truthy b = (isPresent ?v \<and> nonBlank ?v)"
    if "?v \<noteq> JNum (Fin 0) \<and> ?v \<noteq> JNum NaN \<and> ?v \<noteq> JBool False"
    using t p that by blast
  show ?thesis using r 1 wd b t 2 by simp
qed

theorem inputBlurred_unsuppressed_witness:
  "p_shouldBlur (widget (writeValue (JStr ''hello'') (construct ''md'' 40))) = True
   \<and> (\<exists>w'. inputBlurred \<lparr>ev_id = 8, target_value = JUndefined\<rparr>
              (writeValue (JStr ''hello'') (construct ''md'' 40)) = Inr w'
          \<and> take 1 (log w') = [(0, IonBlur \<lparr>ev_id = 8, target_value = JUndefined\<rparr>)]
          \<and> isFocused (widget w') = JBool False
          \<and> truthy (shouldLeftAlign (widget w')))"
proof -
  have h: "p_shouldBlur (widget (writeValue (JStr ''hello'') (construct ''md'' 40))) = True"
    by (simp add: writeValue_def construct_def)
  have n: "nonBlank (JStr ''hello'')" by (simp add: nonBlank_def trim_def isWhite_def)
  have v: "p_value (widget (writeValue (JStr ''hello'') (construct ''md'' 40))) = JStr ''hello''"
    "log (writeValue (JStr ''hello'') (construct ''md'' 40)) = []"
    "now (writeValue (JStr ''hello'') (construct ''md'' 40)) = 0"
    by (simp_all add: writeValue_def construct_def)
  from inputBlurred_unsuppressed[OF h, of "\<lparr>ev_id = 8, target_value = JUndefined\<rparr>"]
  have "\<exists>w'. inputBlurred \<lparr>ev_id = 8, target_value = JUndefined\<rparr>
              (writeValue (JStr ''hello'') (construct ''md'' 40)) = Inr w'
          \<and> take 1 (log w') = [(0, IonBlur \<lparr>ev_id = 8, target_value = JUndefined\<rparr>)]
          \<and> isFocused (widget w') = JBool False
          \<and> truthy (shouldLeftAlign (widget w'))"
    unfolding v using n by auto
  then show ?thesis using h by blast
qed

text \<open>
  C6 as the spec states it fails for the number \<open>0\<close>: it is present and its string form
  \<open>0\<close> is not blank, but \<open>0 && \<dots>\<close> is \<open>0\<close>, so \<open>shouldLeftAlign\<close> is falsy.
\<close>

theorem inputBlurred_unsuppressed_counterexample:
  "p_shouldBlur (widget (writeValue (JNum (Fin 0)) (construct ''md'' 40))) = True
   \<and> isPresent (p_value (widget (writeValue (JNum (Fin 0)) (construct ''md'' 40))))
   \<and> nonBlank (p_value (widget (writeValue (JNum (Fin 0)) (construct ''md'' 40))))
   \<and> map_sum id (truthy \<circ> shouldLeftAlign \<circ> widget)
        (inputBlurred \<lparr>ev_id = 8, target_value = JUndefined\<rparr>
           (writeValue (JNum (Fin 0)) (construct ''md'' 40))) = Inr False"
  by code_simp

subsection \<open>Destruction\<close>

text \<open>
  C4, as the code has it. The widget has no destruction hook: destroying it cancels
  nothing and leaves the widget and the timer queue as they are, so a pending debounce
  timeout still fires when it is due, after the destruction: it sets the value, calls the
  change callback and emits the input-changed notification.
\<close>

theorem destroy_keeps_pending_timer:
  "timers (destroy w) = timers w \<and> widget (destroy w) = widget w \<and> log (destroy w) = log w
   \<and> destroyed (destroy w)
   \<and> (timers w = [tm] \<and> due tm \<le> t \<longrightarrow>
        destroyed (advance t (destroy w))
        \<and> log (advance t (destroy w)) =
            log w @ [(max (now w) (due tm), OnChange (onChange (widget w)) (t_value tm)),
                     (max (now w) (due tm), IonInput (t_ev tm))]
        \<and> p_value (widget (advance t (destroy w))) = t_value tm)"
proof -
  have a: "timers (destroy w) = timers w \<and> widget (destroy w) = widget w
           \<and> log (destroy w) = log w \<and> destroyed (destroy w) \<and> now (destroy w) = now w"
    by (simp add: destroy_def)
  have b: "destroyed (advance t (destroy w))
        \<and> log (advance t (destroy w)) =
            log w @ [(max (now w) (due tm), OnChange (onChange (widget w)) (t_value tm)),
                     (max (now w) (due tm), IonInput (t_ev tm))]
        \<and> p_value (widget (advance t (destroy w))) = t_value tm"
    if h: "timers w = [tm]" "due tm \<le> t"
  proof -
    have tms: "timers (destroy w) = [tm]" using a h(1) by simp
    have "advance t (destroy w)
            = (fireTimer tm (destroy w))\<lparr>now := max (now (fireTimer tm (destroy w))) t\<rparr>"
      by (rule advance_single_due[OF tms h(2)])
    then show ?thesis using fireTimer_log[of tm "destroy w"] a by simp
  qed
  show ?thesis using a b by blast
qed

theorem destroy_keeps_pending_timer_witness:
  "timers (inputChanged \<lparr>ev_id = 1, target_value = JStr ''a''\<rparr> (construct ''md'' 40))
     = [\<lparr>tid = 1, due = 250, t_value = JStr ''a'',
         t_ev = \<lparr>ev_id = 1, target_value = JStr ''a''\<rparr>\<rparr>]
   \<and> destroyed (advance 250 (destroy
        (inputChanged \<lparr>ev_id = 1, target_value = JStr ''a''\<rparr> (construct ''md'' 40))))
   \<and> log (advance 250 (destroy
        (inputChanged \<lparr>ev_id = 1, target_value = JStr ''a''\<rparr> (construct ''md'' 40))))
       = [(250, OnChange Noop (JStr ''a'')),
          (250, IonInput \<lparr>ev_id = 1, target_value = JStr ''a''\<rparr>)]
   \<and> p_value (widget (advance 250 (destroy
        (inputChanged \<lparr>ev_id = 1, target_value = JStr ''a''\<rparr> (construct ''md'' 40)))))
       = JStr ''a''"
proof -
  have w: "inputChanged \<lparr>ev_id = 1, target_value = JStr ''a''\<rparr> (construct ''md'' 40)
     = (construct ''md'' 40)
        \<lparr>timers := [\<lparr>tid = 1, due = 250, t_value = JStr ''a'',
                      t_ev = \<lparr>ev_id = 1, target_value = JStr ''a''\<rparr>\<rparr>],
          nextId := 2,
          widget := (widget (construct ''md'' 40))\<lparr>p_tmr := Some 1\<rparr>\<rparr>"
    by (simp add: inputChanged_construct)
  have h: "timers (inputChanged \<lparr>ev_id = 1, target_value = JStr ''a''\<rparr> (construct ''md'' 40))
     = [\<lparr>tid = 1, due = 250, t_value = JStr ''a'',
         t_ev = \<lparr>ev_id = 1, target_value = JStr ''a''\<rparr>\<rparr>]"
    unfolding w by simp
  show ?thesis
    using h destroy_keeps_pending_timer
      [of "inputChanged \<lparr>ev_id = 1, target_value = JStr ''a''\<rparr> (construct ''md'' 40)"
          "\<lparr>tid = 1, due = 250, t_value = JStr ''a'',
            t_ev = \<lparr>ev_id = 1, target_value = JStr ''a''\<rparr>\<rparr>" 250]
    unfolding w by (simp add: construct_def)
qed

text \<open>
  C4 as the spec states it fails: a commit scheduled before the destruction fires after
  it.
\<close>

theorem destroy_counterexample:
  "map_sum id destroyed
     (mounted ''md'' 40 (JStr []) (JBool False) (NumFinite 250)
        [InputChanged \<lparr>ev_id = 1, target_value = JStr ''a''\<rparr>, Destroy]) = Inr True
   \<and> map_sum id log
     (mounted ''md'' 40 (JStr []) (JBool False) (NumFinite 250)
        [InputChanged \<lparr>ev_id = 1, target_value = JStr ''a''\<rparr>, Destroy]) = Inr []
   \<and> map_sum id log
     (mounted ''md'' 40 (JStr []) (JBool False) (NumFinite 250)
        [InputChanged \<lparr>ev_id = 1, target_value = JStr ''a''\<rparr>, Destroy, Advance 250])
     = Inr [(250, OnChange Noop (JStr ''a'')),
            (250, IonInput \<lparr>ev_id = 1, target_value = JStr ''a''\<rparr>)]"
  by code_simp

subsection \<open>Alignment\<close>

lemma setElementLeft_widget [simp]: "widget (setElementLeft w) = widget w"
  by (simp add: setElementLeft_def addElementLeft_def emit_def Let_def)

lemma step_keeps_alignment:
  assumes "step e w = Inr w'" and "\<not> assigns_alignment e w"
  shows "shouldLeftAlign (widget w') = shouldLeftAlign (widget w)
         \<and> isFocused (widget w') = isFocused (widget w)"
proof (cases e)
  case (Advance t)
  have "widget (advance t w) = (widget w)\<lparr>p_value := p_value (widget (advance t w))\<rparr>"
    using advance_frame by blast
  then have "shouldLeftAlign (widget (advance t w)) = shouldLeftAlign (widget w)
             \<and> isFocused (widget (advance t w)) = isFocused (widget w)"
    by (metis searchbar.select_convs searchbar.surjective searchbar.update_convs(1))
  then show ?thesis using assms Advance by auto
next
  case (InputBlurred ev)
  then show ?thesis using assms by (auto simp: inputBlurred_def emit_def Let_def)
qed (use assms in \<open>auto simp: inputChanged_def clearTimeout_def setTimeout_def Let_def
      clearInput_def cancelSearchbar_def emit_def writeValue_def set_value_def
      registerOnChange_def registerOnTouched_def destroy_def split: option.splits\<close>)

lemma step_focus_inv: "focus_inv w \<Longrightarrow> step e w = Inr w' \<Longrightarrow> focus_inv w'"
proof (cases "assigns_alignment e w")
  case False
  assume "focus_inv w" "step e w = Inr w'"
  then show ?thesis using step_keeps_alignment[OF _ False, of w'] by (simp add: focus_inv_def)
next
  case True
  assume a: "focus_inv w" "step e w = Inr w'"
  show ?thesis
  proof (cases e)
    case (InputFocused ev)
    then show ?thesis using a by (auto simp: focus_inv_def inputFocused_def Let_def emit_def)
  next
    case (InputBlurred ev)
    then show ?thesis using a
      by (auto simp: focus_inv_def inputBlurred_def Let_def emit_def split: if_splits sum.splits)
  qed (use True in simp_all)
qed

lemma run_focus_inv: "focus_inv w \<Longrightarrow> run evs w = Inr w' \<Longrightarrow> focus_inv w'"
proof (induction evs arbitrary: w)
  case Nil
  then show ?case by simp
next
  case (Cons e es)
  then show ?case by (auto split: sum.splits dest: step_focus_inv)
qed

lemma mount_focus_inv: "mount cm tw v h d = Inr w \<Longrightarrow> focus_inv w"
  by (cases h)
     (auto simp: mount_def ngOnInit_def construct_def Let_def ngAfterViewInit_def focus_inv_def
       split: sum.splits)

text \<open>What \<open>ngOnInit\<close> leaves: the value of the expression on the value it finds.\<close>

lemma mount_alignment:
  assumes "mount cm tw v h d = Inr w0"
  shows "leftAlignExpr v = Inr (shouldLeftAlign (widget w0))
         \<and> p_value (widget w0) = v \<and> isFocused (widget w0) = JUndefined
         \<and> aligned_by_value w0"
proof -
  have a: "leftAlignExpr v = Inr (shouldLeftAlign (widget w0))
         \<and> p_value (widget w0) = v \<and> isFocused (widget w0) = JUndefined"
    using assms
    by (cases h)
       (auto simp: mount_def ngOnInit_def construct_def Let_def ngAfterViewInit_def
         split: sum.splits)
  then have "truthy (shouldLeftAlign (widget w0)) = (truthy v \<and> nonBlank v)"
    using leftAlignExpr_truthy by blast
  then show ?thesis using a by (simp add: aligned_by_value_def)
qed

text \<open>What a focus leaves.\<close>

lemma inputFocused_alignment:
  "isFocused (widget (inputFocused ev w)) = JBool True
   \<and> shouldLeftAlign (widget (inputFocused ev w)) = JBool True
   \<and> aligned_by_value (inputFocused ev w)"
  by (simp add: inputFocused_def aligned_by_value_def Let_def emit_def)

text \<open>What a blur leaves when it is not suppressed.\<close>

lemma inputBlurred_alignment:
  assumes "p_shouldBlur (widget w)"
  shows "\<exists>w'. inputBlurred ev w = Inr w'
           \<and> isFocused (widget w') = JBool False
           \<and> leftAlignExpr (p_value (widget w)) = Inr (shouldLeftAlign (widget w'))
           \<and> aligned_by_value w'"
proof -
  obtain b where b: "leftAlignExpr (p_value (widget w)) = Inr b"
    using leftAlignExpr_total by blast
  then have t: "truthy b = (truthy (p_value (widget w)) \<and> nonBlank (p_value (widget w)))"
    by (rule leftAlignExpr_truthy)
  show ?thesis using assms b t
    by (simp add: inputBlurred_def aligned_by_value_def Let_def emit_def)
qed

text \<open>
  C5, as the code has it. The widget assigns \<open>shouldLeftAlign\<close> when it is mounted
  (\<open>ngOnInit\<close>), on a focus and on a blur that is not suppressed, and after each of these
  \<open>shouldLeftAlign\<close> is truthy exactly when the widget is focused, or is unfocused with a
  truthy value whose trimmed string form is not empty: \<open>ngOnInit\<close> and the blur leave the
  value of \<open>_value && _value.toString().trim() !== ''\<close>, the focus leaves \<open>true\<close>. In every
  reachable state \<open>shouldLeftAlign\<close> is \<open>true\<close> whenever the widget is focused. Every other
  operation (\<open>writeValue\<close>, the setter of \<open>value\<close>, \<open>inputChanged\<close>, a fired debounce
  commit, \<open>clearInput\<close>, \<open>cancelSearchbar\<close>, a suppressed blur) leaves \<open>shouldLeftAlign\<close> and
  \<open>isFocused\<close> as they are, whatever it does to the value.
\<close>

theorem shouldLeftAlign_follows_focus_and_value:
  "\<exists>w0 w. mount cm tw v h d = Inr w0 \<and> mounted cm tw v h d evs = Inr w
     \<and> leftAlignExpr v = Inr (shouldLeftAlign (widget w0))
     \<and> aligned_by_value w0
     \<and> (isFocused (widget w) = JBool True \<longrightarrow> shouldLeftAlign (widget w) = JBool True)
     \<and> (\<forall>ev. shouldLeftAlign (widget (inputFocused ev w)) = JBool True
             \<and> aligned_by_value (inputFocused ev w))
     \<and> (\<forall>ev. p_shouldBlur (widget w) \<longrightarrow>
           (\<exists>w'. inputBlurred ev w = Inr w'
                \<and> isFocused (widget w') = JBool False
                \<and> leftAlignExpr (p_value (widget w)) = Inr (shouldLeftAlign (widget w'))
                \<and> aligned_by_value w'))
     \<and> (\<forall>e w'. step e w = Inr w' \<and> \<not> assigns_alignment e w \<longrightarrow>
           shouldLeftAlign (widget w') = shouldLeftAlign (widget w)
           \<and> isFocused (widget w') = isFocused (widget w))"
proof -
  obtain w0 where w0: "mount cm tw v h d = Inr w0" using mount_total by blast
  obtain w where w: "mounted cm tw v h d evs = Inr w" using mounted_total by blast
  have r: "run evs w0 = Inr w" using w w0 by (simp add: mounted_def)
  have 1: "leftAlignExpr v = Inr (shouldLeftAlign (widget w0))" "aligned_by_value w0"
    using mount_alignment[OF w0] by simp_all
  have "focus_inv w" using mount_focus_inv[OF w0] r by (rule run_focus_inv)
  then have 2: "isFocused (widget w) = JBool True \<longrightarrow> shouldLeftAlign (widget w) = JBool True"
    by (simp add: focus_inv_def)
  have 3: "\<forall>ev. shouldLeftAlign (widget (inputFocused ev w)) = JBool True
             \<and> aligned_by_value (inputFocused ev w)"
    using inputFocused_alignment by blast
  have 4: "\<forall>ev. p_shouldBlur (widget w) \<longrightarrow>
           (\<exists>w'. inputBlurred ev w = Inr w'
                \<and> isFocused (widget w') = JBool False
                \<and> leftAlignExpr (p_value (widget w)) = Inr (shouldLeftAlign (widget w'))
                \<and> aligned_by_value w')"
    using inputBlurred_alignment by blast
  have 5: "\<forall>e w'. step e w = Inr w' \<and> \<not> assigns_alignment e w \<longrightarrow>
           shouldLeftAlign (widget w') = shouldLeftAlign (widget w)
           \<and> isFocused (widget w') = isFocused (widget w)"
    using step_keeps_alignment by blast
  show ?thesis using w0 w 1 2 3 4 5 by blast
qed

theorem shouldLeftAlign_follows_focus_and_value_witness:
  "\<exists>w0 w. mount ''md'' 40 (JStr ''abc'') (JBool False) (NumFinite 250) = Inr w0
     \<and> mounted ''md'' 40 (JStr ''abc'') (JBool False) (NumFinite 250)
          [InputFocused \<lparr>ev_id = 6, target_value = JUndefined\<rparr>, WriteValue (JStr [])] = Inr w
     \<and> shouldLeftAlign (widget w0) = JBool True
     \<and> isFocused (widget w) = JBool True \<and> shouldLeftAlign (widget w) = JBool True
     \<and> p_shouldBlur (widget w)
     \<and> (\<exists>w'. inputBlurred \<lparr>ev_id = 7, target_value = JUndefined\<rparr> w = Inr w'
            \<and> isFocused (widget w') = JBool False
            \<and> shouldLeftAlign (widget w') = JStr []
            \<and> aligned_by_value w')
     \<and> step (WriteValue (JStr ''abc'')) w = Inr (writeValue (JStr ''abc'') w)
     \<and> \<not> assigns_alignment (WriteValue (JStr ''abc'')) w
     \<and> shouldLeftAlign (widget (writeValue (JStr ''abc'') w)) = shouldLeftAlign (widget w)"
proof -
  let ?evs = "[InputFocused \<lparr>ev_id = 6, target_value = JUndefined\<rparr>, WriteValue (JStr [])]"
  from shouldLeftAlign_follows_focus_and_value
         [of "''md''" 40 "JStr ''abc''" "JBool False" "NumFinite 250" ?evs]
  obtain w0 w where w0: "mount ''md'' 40 (JStr ''abc'') (JBool False) (NumFinite 250) = Inr w0"
    and w: "mounted ''md'' 40 (JStr ''abc'') (JBool False) (NumFinite 250) ?evs = Inr w"
    and m: "leftAlignExpr (JStr ''abc'') = Inr (shouldLeftAlign (widget w0))"
    and i: "isFocused (widget w) = JBool True \<longrightarrow> shouldLeftAlign (widget w) = JBool True"
    and b: "\<forall>ev. p_shouldBlur (widget w) \<longrightarrow>
           (\<exists>w'. inputBlurred ev w = Inr w'
                \<and> isFocused (widget w') = JBool False
                \<and> leftAlignExpr (p_value (widget w)) = Inr (shouldLeftAlign (widget w'))
                \<and> aligned_by_value w')"
    and k: "\<forall>e w'. step e w = Inr w' \<and> \<not> assigns_alignment e w \<longrightarrow>
           shouldLeftAlign (widget w') = shouldLeftAlign (widget w)
           \<and> isFocused (widget w') = isFocused (widget w)"
    by blast
  have "leftAlignExpr (JStr ''abc'') = Inr (JBool True)" by code_simp
  then have m': "shouldLeftAlign (widget w0) = JBool True" using m by simp
  have "map_sum id (isFocused \<circ> widget)
          (mounted ''md'' 40 (JStr ''abc'') (JBool False) (NumFinite 250) ?evs)
          = Inr (JBool True)"
    by code_simp
  then have f: "isFocused (widget w) = JBool True" by (simp add: w)
  have "map_sum id (p_shouldBlur \<circ> widget)
          (mounted ''md'' 40 (JStr ''abc'') (JBool False) (NumFinite 250) ?evs) = Inr True"
    by code_simp
  then have sb: "p_shouldBlur (widget w)" by (simp add: w)
  have "map_sum id (p_value \<circ> widget)
          (mounted ''md'' 40 (JStr ''abc'') (JBool False) (NumFinite 250) ?evs) = Inr (JStr [])"
    by code_simp
  then have pv: "p_value (widget w) = JStr []" by (simp add: w)
  have le: "leftAlignExpr (JStr []) = Inr (JStr [])" by (simp add: leftAlignExpr_def)
  from b sb obtain w' where w':
    "inputBlurred \<lparr>ev_id = 7, target_value = JUndefined\<rparr> w = Inr w'"
    "isFocused (widget w') = JBool False"
    "leftAlignExpr (p_value (widget w)) = Inr (shouldLeftAlign (widget w'))"
    "aligned_by_value w'"
    by blast
  have w'3: "shouldLeftAlign (widget w') = JStr []" using w'(3) by (simp add: pv le)
  have s: "step (WriteValue (JStr ''abc'')) w = Inr (writeValue (JStr ''abc'') w)"
    "\<not> assigns_alignment (WriteValue (JStr ''abc'')) w" by simp_all
  have "shouldLeftAlign (widget (writeValue (JStr ''abc'') w)) = shouldLeftAlign (widget w)"
    using k s by blast
  then show ?thesis using w0 w m' f i sb w'(1,2,4) w'3 s by blast
qed

text \<open>
  C5 as the spec states it fails in two ways. After a focus and a blur with an empty
  value, a \<open>writeValue\<close> of \<open>abc\<close> leaves the widget unfocused with a value that is not
  blank, and \<open>shouldLeftAlign\<close> still falsy. And with the number \<open>0\<close> as the value, a focus
  and a blur leave the widget unfocused with the string form \<open>0\<close>, which is not blank, and
  \<open>shouldLeftAlign\<close> falsy.
\<close>

theorem left_align_invariant_counterexample:
  "map_sum id (isFocused \<circ> widget)
     (mounted ''md'' 40 (JStr []) (JBool False) (NumFinite 250)
        [InputFocused \<lparr>ev_id = 6, target_value = JUndefined\<rparr>,
         InputBlurred \<lparr>ev_id = 7, target_value = JUndefined\<rparr>,
         WriteValue (JStr ''abc'')]) = Inr (JBool False)
   \<and> map_sum id (nonBlank \<circ> p_value \<circ> widget)
     (mounted ''md'' 40 (JStr []) (JBool False) (NumFinite 250)
        [InputFocused \<lparr>ev_id = 6, target_value = JUndefined\<rparr>,
         InputBlurred \<lparr>ev_id = 7, target_value = JUndefined\<rparr>,
         WriteValue (JStr ''abc'')]) = Inr True
   \<and> map_sum id (truthy \<circ> shouldLeftAlign \<circ> widget)
     (mounted ''md'' 40 (JStr []) (JBool False) (NumFinite 250)
        [InputFocused \<lparr>ev_id = 6, target_value = JUndefined\<rparr>,
         InputBlurred \<lparr>ev_id = 7, target_value = JUndefined\<rparr>,
         WriteValue (JStr ''abc'')]) = Inr False
   \<and> map_sum id (isFocused \<circ> widget)
     (mounted ''md'' 40 (JNum (Fin 0)) (JBool False) (NumFinite 250)
        [InputFocused \<lparr>ev_id = 6, target_value = JUndefined\<rparr>,
         InputBlurred \<lparr>ev_id = 7, target_value = JUndefined\<rparr>]) = Inr (JBool False)
   \<and> map_sum id (nonBlank \<circ> p_value \<circ> widget)
     (mounted ''md'' 40 (JNum (Fin 0)) (JBool False) (NumFinite 250)
        [InputFocused \<lparr>ev_id = 6, target_value = JUndefined\<rparr>,
         InputBlurred \<lparr>ev_id = 7, target_value = JUndefined\<rparr>]) = Inr True
   \<and> map_sum id (truthy \<circ> shouldLeftAlign \<circ> widget)
     (mounted ''md'' 40 (JNum (Fin 0)) (JBool False) (NumFinite 250)
        [InputFocused \<lparr>ev_id = 6, target_value = JUndefined\<rparr>,
         InputBlurred \<lparr>ev_id = 7, target_value = JUndefined\<rparr>]) = Inr False"
  by code_simp

subsection \<open>Writing the value\<close>

text \<open>
  C10. For every state and value \<open>v\<close>, \<open>writeValue v\<close> sets the stored value to \<open>v\<close> and
  changes nothing else: the log is as before (no call of the change callback and no
  notification), \<open>shouldLeftAlign\<close> is as before, and the timer queue is as before, so
  that a pending commit still fires when it is due and overwrites the written value.
\<close>

theorem writeValue_sets_only_value:
  "p_value (widget (writeValue v w)) = v
   \<and> widget (writeValue v w) = (widget w)\<lparr>p_value := v\<rparr>
   \<and> shouldLeftAlign (widget (writeValue v w)) = shouldLeftAlign (widget w)
   \<and> log (writeValue v w) = log w
   \<and> timers (writeValue v w) = timers w
   \<and> now (writeValue v w) = now w
   \<and> nextId (writeValue v w) = nextId w
   \<and> (timers w = [tm] \<and> due tm \<le> t \<longrightarrow>
        p_value (widget (advance t (writeValue v w))) = t_value tm
        \<and> log (advance t (writeValue v w)) =
            log w @ [(max (now w) (due tm), OnChange (onChange (widget w)) (t_value tm)),
                     (max (now w) (due tm), IonInput (t_ev tm))])"
proof -
  have a: "p_value (widget (writeValue v w)) = v
   \<and> widget (writeValue v w) = (widget w)\<lparr>p_value := v\<rparr>
   \<and> shouldLeftAlign (widget (writeValue v w)) = shouldLeftAlign (widget w)
   \<and> log (writeValue v w) = log w
   \<and> timers (writeValue v w) = timers w
   \<and> now (writeValue v w) = now w
   \<and> nextId (writeValue v w) = nextId w"
    by (simp add: writeValue_def)
  have b: "p_value (widget (advance t (writeValue v w))) = t_value tm
        \<and> log (advance t (writeValue v w)) =
            log w @ [(max (now w) (due tm), OnChange (onChange (widget w)) (t_value tm)),
                     (max (now w) (due tm), IonInput (t_ev tm))]"
    if h: "timers w = [tm]" "due tm \<le> t"
  proof -
    have tms: "timers (writeValue v w) = [tm]" using a h(1) by simp
    have "advance t (writeValue v w)
            = (fireTimer tm (writeValue v w))\<lparr>now := max (now (fireTimer tm (writeValue v w))) t\<rparr>"
      by (rule advance_single_due[OF tms h(2)])
    then show ?thesis using fireTimer_log[of tm "writeValue v w"] a by simp
  qed
  show ?thesis using a b by blast
qed

theorem writeValue_sets_only_value_witness:
  "timers (inputChanged \<lparr>ev_id = 1, target_value = JStr ''a''\<rparr> (construct ''md'' 40))
     = [\<lparr>tid = 1, due = 250, t_value = JStr ''a'',
         t_ev = \<lparr>ev_id = 1, target_value = JStr ''a''\<rparr>\<rparr>]
   \<and> p_value (widget (writeValue (JStr ''written'')
        (inputChanged \<lparr>ev_id = 1, target_value = JStr ''a''\<rparr> (construct ''md'' 40))))
       = JStr ''written''
   \<and> p_value (widget (advance 250 (writeValue (JStr ''written'')
        (inputChanged \<lparr>ev_id = 1, target_value = JStr ''a''\<rparr> (construct ''md'' 40)))))
       = JStr ''a''
   \<and> log (advance 250 (writeValue (JStr ''written'')
        (inputChanged \<lparr>ev_id = 1, target_value = JStr ''a''\<rparr> (construct ''md'' 40))))
       = [(250, OnChange Noop (JStr ''a'')),
          (250, IonInput \<lparr>ev_id = 1, target_value = JStr ''a''\<rparr>)]"
proof -
  have w: "inputChanged \<lparr>ev_id = 1, target_value = JStr ''a''\<rparr> (construct ''md'' 40)
     = (construct ''md'' 40)
        \<lparr>timers := [\<lparr>tid = 1, due = 250, t_value = JStr ''a'',
                      t_ev = \<lparr>ev_id = 1, target_value = JStr ''a''\<rparr>\<rparr>],
          nextId := 2,
          widget := (widget (construct ''md'' 40))\<lparr>p_tmr := Some 1\<rparr>\<rparr>"
    by (simp add: inputChanged_construct)
  have h: "timers (inputChanged \<lparr>ev_id = 1, target_value = JStr ''a''\<rparr> (construct ''md'' 40))
     = [\<lparr>tid = 1, due = 250, t_value = JStr ''a'',
         t_ev = \<lparr>ev_id = 1, target_value = JStr ''a''\<rparr>\<rparr>]"
    unfolding w by simp
  show ?thesis
    using h writeValue_sets_only_value
      [of "JStr ''written''"
          "inputChanged \<lparr>ev_id = 1, target_value = JStr ''a''\<rparr> (construct ''md'' 40)"
          "\<lparr>tid = 1, due = 250, t_value = JStr ''a'',
            t_ev = \<lparr>ev_id = 1, target_value = JStr ''a''\<rparr>\<rparr>" 250]
    unfolding w by (simp add: construct_def)
qed

end
